theory Spec2Isabelle
  imports Complex_Main "HOL-Library.Char_ord" "HOL-Library.List_Lexorder"
begin

section \<open>Text helpers of the analyzer\<close>

text \<open>
  The analyzer (\<^verbatim>\<open>app.py\<close>) works on Python strings. They are modelled as
  \<^typ>\<open>string\<close>; the character classes below are the ASCII ranges the source's
  patterns name (\<^verbatim>\<open>[0-9]\<close>, \<^verbatim>\<open>[A-Z]\<close>, \<^verbatim>\<open>[A-Za-z0-9]\<close>), and
  \<^verbatim>\<open>str.upper\<close> is modelled on ASCII letters, every other character left as it is.
\<close>

definition is_digit :: "char \<Rightarrow> bool" where
  "is_digit c = (c \<in> set ''0123456789'')"

definition is_upper :: "char \<Rightarrow> bool" where
  "is_upper c = (c \<in> set ''ABCDEFGHIJKLMNOPQRSTUVWXYZ'')"

definition is_lower :: "char \<Rightarrow> bool" where
  "is_lower c = (c \<in> set ''abcdefghijklmnopqrstuvwxyz'')"

definition is_alnum :: "char \<Rightarrow> bool" where
  "is_alnum c = (is_upper c \<or> is_lower c \<or> is_digit c)"

text \<open>The characters \<^verbatim>\<open>str.strip()\<close> removes: Python's white space below code point 256.\<close>

definition is_space :: "char \<Rightarrow> bool" where
  "is_space c = (c \<in> set [CHR 0x09, CHR 0x0A, CHR 0x0B, CHR 0x0C, CHR 0x0D,
                            CHR 0x1C, CHR 0x1D, CHR 0x1E, CHR 0x1F, CHR 0x20,
                            CHR 0x85, CHR 0xA0])"

definition upper_char :: "char \<Rightarrow> char" where
  "upper_char c =
     (case map_of (zip ''abcdefghijklmnopqrstuvwxyz'' ''ABCDEFGHIJKLMNOPQRSTUVWXYZ'') c of
        Some u \<Rightarrow> u
      | None \<Rightarrow> c)"

definition upper :: "string \<Rightarrow> string" where
  "upper s = map upper_char s"

definition strip :: "string \<Rightarrow> string" where
  "strip s = rev (dropWhile is_space (rev (dropWhile is_space s)))"

text \<open>\<^verbatim>\<open>s.split(',')\<close>: the pieces between commas, one more than there are commas.\<close>

fun split_comma :: "string \<Rightarrow> string list" where
  "split_comma [] = [[]]"
| "split_comma (c # cs) =
     (if c = CHR '','' then [] # split_comma cs
      else (case split_comma cs of
              [] \<Rightarrow> [[c]]
            | p # ps \<Rightarrow> (c # p) # ps))"

text \<open>\<^verbatim>\<open>word.startswith(prefix)\<close>.\<close>

definition startswith :: "string \<Rightarrow> string \<Rightarrow> bool" where
  "startswith prefix word = (take (length prefix) word = prefix)"

section \<open>The patterns\<close>

text \<open>
  The source builds its patterns by splicing the configured prefixes into the pattern
  text. A prefix made of letters and digits stands for itself there (\<open>literal_prefixes\<close>
  below; the default list and the input's help text have this shape); \<open>spliced\<close> below
  says what the model makes of the others. The predicates that follow give the meaning of
  the patterns for prefixes that stand for themselves.

  \<^verbatim>\<open>[0-9]+\<close> matched against the whole of a remaining text:
\<close>

definition digits1 :: "string \<Rightarrow> bool" where
  "digits1 s = (s \<noteq> [] \<and> list_all is_digit s)"

text \<open>
  Python's \<^verbatim>\<open>$\<close> (no flags) holds at the end of the text and also just before a
  line feed that ends the text. \<open>at_dollar body s\<close>: \<open>body\<close> matches up to such a point.
\<close>

definition at_dollar :: "(string \<Rightarrow> bool) \<Rightarrow> string \<Rightarrow> bool" where
  "at_dollar body s = (body s \<or> (s \<noteq> [] \<and> last s = CHR 0x0A \<and> body (butlast s)))"

text \<open>
  The pattern \<^verbatim>\<open>r'^' + prefix + r'[0-9]+$'\<close> of lines 159 and 161, for a prefix that
  stands for itself in it.
\<close>

definition match_prefix_digits :: "string \<Rightarrow> string \<Rightarrow> bool" where
  "match_prefix_digits prefix word =
     (startswith prefix word \<and> at_dollar digits1 (drop (length prefix) word))"

text \<open>
  The exceptions of the program that no \<^verbatim>\<open>try\<close> catches: \<^verbatim>\<open>AttributeError\<close>
  (\<^verbatim>\<open>.strip()\<close> on a cell that is no text), \<^verbatim>\<open>KeyError\<close> (the columns of a
  table that has none) and \<^verbatim>\<open>re.error\<close> (a pattern that does not compile).
\<close>

datatype error = AttributeError | KeyError | Re_error

text \<open>
  What a prefix spliced into a pattern is. Made of letters and digits it stands for
  itself (\<open>Literal\<close>). Made of letters, digits and at least one opening parenthesis it
  opens a group that nothing closes, and compiling the pattern raises \<^verbatim>\<open>re.error\<close>
  (\<open>Unbalanced\<close>). For any other prefix the pattern may compile to something else or
  not compile; the model does not say which (\<open>Other_pattern\<close>).
\<close>

datatype splice = Literal | Unbalanced | Other_pattern

definition spliced :: "string \<Rightarrow> splice" where
  "spliced p =
     (if list_all is_alnum p then Literal
      else if list_all (\<lambda>c. is_alnum c \<or> c = CHR ''('') p then Unbalanced
      else Other_pattern)"

text \<open>
  The outcome of a step that evaluates a spliced pattern: it raises (\<open>Raised\<close>), the
  model does not follow it (\<open>Not_modelled\<close>, a pattern that is \<open>Other_pattern\<close>), or
  it returns (\<open>Inr\<close>).
\<close>

datatype fault = Raised error | Not_modelled

text \<open>\<^verbatim>\<open>re.match(r'^' + prefix + r'[0-9]+$', word)\<close> (lines 159 and 161).\<close>

definition re_match :: "string \<Rightarrow> string \<Rightarrow> fault + bool" where
  "re_match prefix word =
     (case spliced prefix of
        Literal \<Rightarrow> Inr (match_prefix_digits prefix word)
      | Unbalanced \<Rightarrow> Inl (Raised Re_error)
      | Other_pattern \<Rightarrow> Inl Not_modelled)"

text \<open>
  \<^verbatim>\<open>any(re.match(...) for prefix in prefixes)\<close>: the prefixes are tried in their
  order, and the first match ends the search, so that a later prefix is not compiled.
\<close>

fun any_match :: "string list \<Rightarrow> string \<Rightarrow> fault + bool" where
  "any_match [] word = Inr False"
| "any_match (prefix # prefixes) word =
     (case re_match prefix word of
        Inl f \<Rightarrow> Inl f
      | Inr matched \<Rightarrow> if matched then Inr True else any_match prefixes word)"

text \<open>
  \<^verbatim>\<open>'|'.join(prefixes)\<close> inside \<^verbatim>\<open>(?:...)\<close>: the alternatives in their order; the
  join of no prefix is the empty pattern, which matches the empty text.
\<close>

definition alternation :: "string list \<Rightarrow> string list" where
  "alternation prefixes = (if prefixes = [] then [[]] else prefixes)"

text \<open>\<^verbatim>\<open>[A-Z][0-9]+\<close> against a whole text.\<close>

definition letter_digits :: "string \<Rightarrow> bool" where
  "letter_digits s = (case s of [] \<Rightarrow> False | c # ds \<Rightarrow> is_upper c \<and> digits1 ds)"

text \<open>
  \<^verbatim>\<open>re.match(r'^(?:[A-Z][0-9]+|(?:' + '|'.join(valid_prefixes) + r')[0-9]+)$', w)\<close>
  (line 209).
\<close>

definition match_component :: "string list \<Rightarrow> string \<Rightarrow> bool" where
  "match_component valid_prefixes w =
     at_dollar (\<lambda>s. letter_digits s \<or>
                     list_ex (\<lambda>p. startswith p s \<and> digits1 (drop (length p) s))
                       (alternation valid_prefixes)) w"

section \<open>Configuration: the prefixes (lines 85 to 100)\<close>

definition default_prefixes :: "string list" where
  "default_prefixes = [''C'', ''R'', ''D'', ''Q'', ''U'', ''L'', ''Z'', ''FB'', ''SWITCH'', ''MOV'',
     ''LED'', ''TVS'', ''ESD'', ''XT'', ''OPD'', ''OPQ'', ''LCD'', ''CN'']"

definition read_prefixes :: "string \<Rightarrow> string list" where
  "read_prefixes prefixes_input =
     (if prefixes_input \<noteq> [] then
        (let valid_prefixes =
               map (\<lambda>prefix. upper (strip prefix))
                 (filter (\<lambda>prefix. strip prefix \<noteq> []) (split_comma prefixes_input))
         in if valid_prefixes = [] then default_prefixes else valid_prefixes)
      else default_prefixes)"

definition single_letter_prefixes :: "string list \<Rightarrow> string list" where
  "single_letter_prefixes valid_prefixes = filter (\<lambda>p. length p = 1) valid_prefixes"

definition multi_letter_prefixes :: "string list \<Rightarrow> string list" where
  "multi_letter_prefixes valid_prefixes = filter (\<lambda>p. length p > 1) valid_prefixes"

text \<open>The prefixes for which the spliced pattern is the literal one: not empty, letters and digits only.\<close>

definition literal_prefixes :: "string list \<Rightarrow> bool" where
  "literal_prefixes valid_prefixes =
     list_all (\<lambda>p. p \<noteq> [] \<and> list_all is_alnum p) valid_prefixes"

section \<open>Extraction from the document (lines 152 to 188)\<close>

text \<open>
  A positioned token of the text layer, as \<^verbatim>\<open>page.get_text("words")\<close> gives it: the
  corners of its bounding region and its text. The coordinates are the library's floats,
  modelled as reals; no claim computes with them.
\<close>

record word_tuple =
  x0 :: real
  y0 :: real
  x1 :: real
  y1 :: real
  token :: string

type_synonym observation = "string \<times> nat \<times> word_tuple option"

text \<open>\<^verbatim>\<open>re.sub(r'[^A-Za-z0-9]', '', word_tuple[4].strip()).upper()\<close> (line 157).\<close>

definition normalize :: "string \<Rightarrow> string" where
  "normalize raw = upper (filter is_alnum (strip raw))"

text \<open>
  The test of lines 158 to 162: the \<^verbatim>\<open>startswith\<close> guard, then the pattern tests,
  the single-letter prefixes first.
\<close>

definition keep_word :: "string list \<Rightarrow> string \<Rightarrow> fault + bool" where
  "keep_word valid_prefixes word =
     (if list_ex (\<lambda>prefix. startswith prefix word) valid_prefixes then
        (case any_match (single_letter_prefixes valid_prefixes) word of
           Inl f \<Rightarrow> Inl f
         | Inr matched \<Rightarrow>
             if matched then Inr True
             else any_match (multi_letter_prefixes valid_prefixes) word)
      else Inr False)"

text \<open>
  Strategy 1, lines 153 to 162: every page (numbered from 1), every token of the page.
  The loops are outside any \<^verbatim>\<open>try\<close>: an exception in them leaves the function.
\<close>

fun page_words ::
  "string list \<Rightarrow> nat \<Rightarrow> word_tuple list \<Rightarrow> observation list \<Rightarrow> fault + observation list" where
  "page_words valid_prefixes page_num [] comps = Inr comps"
| "page_words valid_prefixes page_num (wt # words) comps =
     (case keep_word valid_prefixes (normalize (token wt)) of
        Inl f \<Rightarrow> Inl f
      | Inr keep \<Rightarrow>
          page_words valid_prefixes page_num words
            (if keep then comps @ [(normalize (token wt), page_num, Some wt)] else comps))"

fun pages_from ::
  "string list \<Rightarrow> nat \<Rightarrow> word_tuple list list \<Rightarrow> observation list \<Rightarrow> fault + observation list" where
  "pages_from valid_prefixes page_num [] comps = Inr comps"
| "pages_from valid_prefixes page_num (page # doc) comps =
     (case page_words valid_prefixes page_num page comps of
        Inl f \<Rightarrow> Inl f
      | Inr comps' \<Rightarrow> pages_from valid_prefixes (Suc page_num) doc comps')"

definition text_layer :: "string list \<Rightarrow> word_tuple list list \<Rightarrow> fault + observation list" where
  "text_layer valid_prefixes doc = pages_from valid_prefixes 1 doc []"

text \<open>
  \<^verbatim>\<open>re.findall(r'(?:[A-Z][0-9]+|(?:' + '|'.join(multi_letter_prefixes) + r')[0-9]+)', text)\<close>
  (lines 170 and 182). \<open>match_here\<close> is the match that starts at the head of the text:
  the first alternative is tried first, then the prefixes in their order, the digits greedy.
\<close>

definition match_here :: "string list \<Rightarrow> string \<Rightarrow> string option" where
  "match_here multi s =
     (if letter_digits (take 1 s @ takeWhile is_digit (drop 1 s))
      then Some (take 1 s @ takeWhile is_digit (drop 1 s))
      else (case find (\<lambda>p. startswith p s \<and> takeWhile is_digit (drop (length p) s) \<noteq> [])
                   (alternation multi) of
              None \<Rightarrow> None
            | Some p \<Rightarrow> Some (p @ takeWhile is_digit (drop (length p) s))))"

text \<open>
  The scan: a match is recorded and the scan goes on behind it (\<open>skip\<close> counts the
  characters of the match still to pass); where nothing matches it moves on by one.
\<close>

fun findall_from :: "string list \<Rightarrow> nat \<Rightarrow> string \<Rightarrow> string list" where
  "findall_from multi skip [] = []"
| "findall_from multi skip (c # cs) =
     (if skip > 0 then findall_from multi (skip - 1) cs
      else (case match_here multi (c # cs) of
              None \<Rightarrow> findall_from multi 0 cs
            | Some w \<Rightarrow> w # findall_from multi (length w - 1) cs))"

definition findall :: "string list \<Rightarrow> string \<Rightarrow> string list" where
  "findall multi s = findall_from multi 0 s"

text \<open>
  Lines 170 to 172 and 182 to 184: the words of one page's text, none with a region. The
  pattern has all multi-letter prefixes spliced in; \<open>page_found\<close> is what the lines
  append when all of them are literal, and with another prefix the model does not follow
  the step.
\<close>

definition page_found :: "string list \<Rightarrow> nat \<Rightarrow> string \<Rightarrow> observation list" where
  "page_found valid_prefixes page_num txt =
     map (\<lambda>word. (word, page_num, None))
       (filter (\<lambda>word. list_ex (\<lambda>prefix. startswith prefix word) valid_prefixes)
          (findall (multi_letter_prefixes valid_prefixes) txt))"

definition text_words :: "string list \<Rightarrow> nat \<Rightarrow> string \<Rightarrow> fault + observation list" where
  "text_words valid_prefixes page_num txt =
     (if list_all (\<lambda>p. spliced p = Literal) (multi_letter_prefixes valid_prefixes) then
        Inr (page_found valid_prefixes page_num txt)
      else Inl Not_modelled)"

text \<open>
  The services behind strategies 2 and 3 are outside the program; a call of one either
  raises (\<open>Inl\<close> of the exception's message) or returns (\<open>Inr\<close>).
  \<^item> Strategy 2: \<^verbatim>\<open>convert_from_path\<close> raises or gives the page images, and
    \<^verbatim>\<open>image_to_string\<close> raises or gives the text of an image.
  \<^item> Strategy 3: \<^verbatim>\<open>pdfplumber.open\<close> raises or gives the pages, and
    \<^verbatim>\<open>extract_text\<close> raises or gives a page's text, \<open>None\<close> where there is none.
\<close>

type_synonym ocr_service = "string + (string + string) list"
type_synonym plumber_service = "string + (string + string option) list"

datatype strategy = Native | Rasterize | Alternate

record extraction =
  components :: "observation list"
  attempted :: "strategy list"
  warnings :: "string list"

text \<open>
  The page loops of lines 168 to 172 and 180 to 184, inside their \<^verbatim>\<open>try\<close>: a page
  that raises ends the loop, and what was appended before stays in \<open>components\<close>.
\<close>

text \<open>Line 181: \<^verbatim>\<open>page.extract_text().upper() if page.extract_text() else ""\<close>.\<close>

definition extracted_text :: "string option \<Rightarrow> string" where
  "extracted_text extracted =
     (case extracted of None \<Rightarrow> [] | Some txt \<Rightarrow> if txt \<noteq> [] then upper txt else [])"

fun recognize_pages ::
  "string list \<Rightarrow> nat \<Rightarrow> (string + string) list \<Rightarrow> observation list
     \<Rightarrow> fault + observation list \<times> string option" where
  "recognize_pages valid_prefixes page_num [] comps = Inr (comps, None)"
| "recognize_pages valid_prefixes page_num (Inl e # images) comps = Inr (comps, Some e)"
| "recognize_pages valid_prefixes page_num (Inr txt # images) comps =
     (case text_words valid_prefixes page_num (upper txt) of
        Inl f \<Rightarrow> Inl f
      | Inr found \<Rightarrow> recognize_pages valid_prefixes (Suc page_num) images (comps @ found))"

fun plumber_pages ::
  "string list \<Rightarrow> nat \<Rightarrow> (string + string option) list \<Rightarrow> observation list
     \<Rightarrow> fault + observation list \<times> string option" where
  "plumber_pages valid_prefixes page_num [] comps = Inr (comps, None)"
| "plumber_pages valid_prefixes page_num (Inl e # pages) comps = Inr (comps, Some e)"
| "plumber_pages valid_prefixes page_num (Inr extracted # pages) comps =
     (case text_words valid_prefixes page_num (extracted_text extracted) of
        Inl f \<Rightarrow> Inl f
      | Inr found \<Rightarrow> plumber_pages valid_prefixes (Suc page_num) pages (comps @ found))"

definition warn :: "string \<Rightarrow> string option \<Rightarrow> string list" where
  "warn label err = (case err of None \<Rightarrow> [] | Some e \<Rightarrow> [label @ e])"

text \<open>Lines 165 to 174.\<close>

definition ocr_block :: "string list \<Rightarrow> ocr_service \<Rightarrow> extraction \<Rightarrow> fault + extraction" where
  "ocr_block valid_prefixes ocr st =
     (case ocr of
        Inl e \<Rightarrow> Inr (st\<lparr>attempted := attempted st @ [Rasterize],
                         warnings := warnings st @ warn ''OCR error: '' (Some e)\<rparr>)
      | Inr images \<Rightarrow>
          (case recognize_pages valid_prefixes 1 images (components st) of
             Inl f \<Rightarrow> Inl f
           | Inr (comps, err) \<Rightarrow>
               Inr (st\<lparr>components := comps, attempted := attempted st @ [Rasterize],
                       warnings := warnings st @ warn ''OCR error: '' err\<rparr>)))"

text \<open>Lines 177 to 186.\<close>

definition plumber_block :: "string list \<Rightarrow> plumber_service \<Rightarrow> extraction \<Rightarrow> fault + extraction" where
  "plumber_block valid_prefixes plumber st =
     (case plumber of
        Inl e \<Rightarrow> Inr (st\<lparr>attempted := attempted st @ [Alternate],
                         warnings := warnings st @ warn ''pdfplumber error: '' (Some e)\<rparr>)
      | Inr pages \<Rightarrow>
          (case plumber_pages valid_prefixes 1 pages (components st) of
             Inl f \<Rightarrow> Inl f
           | Inr (comps, err) \<Rightarrow>
               Inr (st\<lparr>components := comps, attempted := attempted st @ [Alternate],
                       warnings := warnings st @ warn ''pdfplumber error: '' err\<rparr>)))"

text \<open>
  \<^verbatim>\<open>extract_components_from_pdf\<close>: strategy 1, then each fallback under its
  \<^verbatim>\<open>if not components\<close>. An exception of strategy 1 leaves the function (\<open>Inl\<close>);
  those of the services of strategies 2 and 3 are caught in the blocks. The record
  returned adds to the source's list the strategies that ran and the warnings shown, so
  that claims about them can be stated.
\<close>

definition extract_components_from_pdf ::
  "word_tuple list list \<Rightarrow> string list \<Rightarrow> ocr_service \<Rightarrow> plumber_service
     \<Rightarrow> fault + extraction" where
  "extract_components_from_pdf doc valid_prefixes ocr plumber =
     (case text_layer valid_prefixes doc of
        Inl f \<Rightarrow> Inl f
      | Inr comps \<Rightarrow>
          (let st0 = \<lparr>components = comps, attempted = [Native], warnings = []\<rparr> in
           case (if components st0 = [] then ocr_block valid_prefixes ocr st0 else Inr st0) of
             Inl f \<Rightarrow> Inl f
           | Inr st1 \<Rightarrow>
               if components st1 = [] then plumber_block valid_prefixes plumber st1 else Inr st1))"

section \<open>The spreadsheet (lines 106 to 149)\<close>

text \<open>
  A cell of the table \<^verbatim>\<open>read_excel\<close> returns is missing (\<open>NaN\<close>), a text, or a value
  of another type (a number, a date, a truth value), on which \<^verbatim>\<open>.strip()\<close> raises
  \<^verbatim>\<open>AttributeError\<close>. A row gives the cell of each column name.
\<close>

datatype cell = NaN | Text string | Other

type_synonym row = "string \<Rightarrow> cell"

text \<open>
  \<^verbatim>\<open>[comp.strip().upper() for comp in s.split(',') if comp.strip()]\<close>, the expression
  of lines 111 and 147.
\<close>

definition split_components :: "string \<Rightarrow> string list" where
  "split_components s =
     map (\<lambda>comp. upper (strip comp)) (filter (\<lambda>comp. strip comp \<noteq> []) (split_comma s))"

text \<open>Lines 108 to 112: the set of one row, column by column.\<close>

fun row_components :: "row \<Rightarrow> string list \<Rightarrow> string set \<Rightarrow> error + string set" where
  "row_components row [] comps = Inr comps"
| "row_components row (col # cols) comps =
     (case row col of
        NaN \<Rightarrow> row_components row cols comps
      | Other \<Rightarrow> Inl AttributeError
      | Text s \<Rightarrow>
          if strip s \<noteq> [] then row_components row cols (comps \<union> set (split_components s))
          else row_components row cols comps)"

text \<open>Lines 114 to 122: the rows one input row expands to.\<close>

definition expand_row :: "string list \<Rightarrow> row \<Rightarrow> error + row list" where
  "expand_row component_columns row =
     (case row_components row component_columns {} of
        Inl e \<Rightarrow> Inl e
      | Inr comps \<Rightarrow>
          Inr (if comps \<noteq> {} then
                 map (\<lambda>component. row(''Merged Components'' := Text component))
                   (sorted_list_of_set comps)
               else [row(''Merged Components'' := Text [])]))"

text \<open>Lines 106 and 107: the loop over the rows; the first exception ends it.\<close>

fun expand_rows :: "string list \<Rightarrow> row list \<Rightarrow> error + row list" where
  "expand_rows component_columns [] = Inr []"
| "expand_rows component_columns (row # rows) =
     (case expand_row component_columns row of
        Inl e \<Rightarrow> Inl e
      | Inr new_rows \<Rightarrow>
          (case expand_rows component_columns rows of
             Inl e \<Rightarrow> Inl e
           | Inr rest \<Rightarrow> Inr (new_rows @ rest)))"

text \<open>Lines 126 and 127: the columns of the new table.\<close>

definition new_columns :: "string list \<Rightarrow> string list" where
  "new_columns columns = columns @ [''Merged Components'']"



text \<open>
  Lines 144 to 149: the identifiers of the items in their order; \<^verbatim>\<open>excel_components\<close>
  is the set of this list and \<^verbatim>\<open>excel_counts\<close> counts in it.
\<close>

definition excel_list :: "string list \<Rightarrow> string list" where
  "excel_list items = concat (map split_components items)"

section \<open>The conditions (lines 199 to 214 and 288 to 294)\<close>

text \<open>Line 199 and 200: the identifiers of the observations, in their order.\<close>

definition pdf_list :: "observation list \<Rightarrow> string list" where
  "pdf_list pdf_components_list = map fst pdf_components_list"

text \<open>Lines 203 and 204: \<^verbatim>\<open>{comp for comp, count in counts.items() if count > 1}\<close>.\<close>

definition repeated :: "string list \<Rightarrow> string set" where
  "repeated ws = {comp \<in> set ws. count_list ws comp > 1}"

text \<open>Lines 208 and 209.\<close>

definition filter_components :: "string list \<Rightarrow> string set \<Rightarrow> string set" where
  "filter_components valid_prefixes comps =
     {comp \<in> comps. match_component valid_prefixes (upper comp)}"

record condition_components =
  repeated_pdf :: "string set"
  repeated_excel :: "string set"
  in_pdf_not_excel :: "string set"
  in_excel_not_pdf :: "string set"
  normal :: "string set"

text \<open>
  Lines 203 to 214 and 288 to 294, from the identifiers of the document (\<open>pdf\<close>) and of
  the spreadsheet (\<open>excel\<close>), each in its order with its repetitions.
\<close>

definition conditions_of :: "string list \<Rightarrow> string list \<Rightarrow> string list \<Rightarrow> condition_components" where
  "conditions_of valid_prefixes pdf excel =
     (let pdf_components = set pdf;
          excel_components = set excel;
          rp = filter_components valid_prefixes (repeated pdf);
          re = filter_components valid_prefixes (repeated excel);
          pne = filter_components valid_prefixes (pdf_components - excel_components);
          enp = filter_components valid_prefixes (excel_components - pdf_components)
      in \<lparr>repeated_pdf = rp, repeated_excel = re, in_pdf_not_excel = pne, in_excel_not_pdf = enp,
          normal = (pdf_components \<union> excel_components) - (rp \<union> re \<union> pne \<union> enp)\<rparr>)"

section \<open>Markers and report (lines 217 to 242 and 272 to 319)\<close>

datatype condition_key = Repeated_pdf | Repeated_excel | In_pdf_not_excel | In_excel_not_pdf | Normal

type_synonym rgb = "nat \<times> nat \<times> nat"

text \<open>The table \<^verbatim>\<open>conditions\<close> of lines 274 to 280: sheet title, colour name, colour.\<close>

fun conditions :: "condition_key \<Rightarrow> string \<times> string \<times> rgb" where
  "conditions Repeated_pdf = (''Repeated in PDF'', ''Red'', (1, 0, 0))"
| "conditions Repeated_excel = (''Repeated in Excel'', ''Cyan'', (0, 1, 1))"
| "conditions In_pdf_not_excel = (''In PDF, not in Excel'', ''Yellow'', (1, 1, 0))"
| "conditions In_excel_not_pdf = (''In Excel, not in PDF'', ''Blue'', (0, 0, 1))"
| "conditions Normal = (''Normal'', ''Green'', (0, 1, 0))"

text \<open>The keys in the order of the table, which is the order of the sheets.\<close>

definition condition_keys :: "condition_key list" where
  "condition_keys = [Repeated_pdf, Repeated_excel, In_pdf_not_excel, In_excel_not_pdf, Normal]"

text \<open>\<^verbatim>\<open>condition_components[condition_key]\<close>.\<close>

fun components_of :: "condition_components \<Rightarrow> condition_key \<Rightarrow> string set" where
  "components_of cc Repeated_pdf = repeated_pdf cc"
| "components_of cc Repeated_excel = repeated_excel cc"
| "components_of cc In_pdf_not_excel = in_pdf_not_excel cc"
| "components_of cc In_excel_not_pdf = in_excel_not_pdf cc"
| "components_of cc Normal = normal cc"

text \<open>Lines 228 to 237: the colour of a marker.\<close>

definition marker_color :: "condition_components \<Rightarrow> string \<Rightarrow> rgb" where
  "marker_color cc word =
     (if word \<in> in_pdf_not_excel cc then (1, 1, 0)
      else if word \<in> in_excel_not_pdf cc then (0, 0, 1)
      else if word \<in> repeated_pdf cc then (1, 0, 0)
      else if word \<in> repeated_excel cc then (0, 1, 1)
      else (0, 1, 0))"

text \<open>
  \<^verbatim>\<open>highlight_components\<close>: one marker for each observation that has a region, on the
  observation's page, over the region widened by 2 on each side.
\<close>

record marker =
  on_page :: nat
  rect :: "real \<times> real \<times> real \<times> real"
  stroke :: rgb

definition highlight_components :: "observation list \<Rightarrow> condition_components \<Rightarrow> marker list" where
  "highlight_components pdf_components_list cc =
     concat (map (\<lambda>(word, page_num, word_tuple).
                    case word_tuple of
                      None \<Rightarrow> []
                    | Some wt \<Rightarrow>
                        [\<lparr>on_page = page_num,
                          rect = (x0 wt - 2, y0 wt - 2, x1 wt + 2, y1 wt + 2),
                          stroke = marker_color cc word\<rparr>])
                 pdf_components_list)"

text \<open>Lines 305 to 319: the rows of one sheet.\<close>

definition repeat_count :: "string list \<Rightarrow> string list \<Rightarrow> condition_key \<Rightarrow> string \<Rightarrow> nat" where
  "repeat_count pdf excel condition_key component =
     (if condition_key \<in> set [Repeated_pdf, In_pdf_not_excel] then count_list pdf component
      else if condition_key \<in> set [Repeated_excel, In_excel_not_pdf] then count_list excel component
      else max (count_list pdf component) (count_list excel component))"

definition sheet_rows ::
  "string list \<Rightarrow> string list \<Rightarrow> condition_components \<Rightarrow> condition_key
     \<Rightarrow> (string \<times> string \<times> nat \<times> string) list" where
  "sheet_rows pdf excel cc condition_key =
     map (\<lambda>comp. (fst (conditions condition_key), comp,
                   repeat_count pdf excel condition_key comp,
                   fst (snd (conditions condition_key))))
       (sorted_list_of_set (components_of cc condition_key))"

text \<open>Lines 296 and 297: the report, one titled sheet for each key.\<close>

definition report_sheet ::
  "string list \<Rightarrow> string list \<Rightarrow> string list \<Rightarrow> condition_key
     \<Rightarrow> string \<times> (string \<times> string \<times> nat \<times> string) list" where
  "report_sheet valid_prefixes pdf excel condition_key =
     (fst (conditions condition_key),
      sheet_rows pdf excel (conditions_of valid_prefixes pdf excel) condition_key)"

definition report ::
  "string list \<Rightarrow> string list \<Rightarrow> string list
     \<Rightarrow> (string \<times> (string \<times> string \<times> nat \<times> string) list) list" where
  "report valid_prefixes pdf excel = map (report_sheet valid_prefixes pdf excel) condition_keys"

text \<open>The identifiers listed on a sheet: the second column of its rows.\<close>

definition sheet_identifiers :: "string \<times> (string \<times> string \<times> nat \<times> string) list \<Rightarrow> string set" where
  "sheet_identifiers sheet = set (map (\<lambda>r. fst (snd r)) (snd sheet))"

section \<open>The files of a run (lines 53 to 64, the error paths, lines 359 to 364)\<close>










section \<open>The words of the specification\<close>

text \<open>
  The specification's \<^verbatim>\<open>is_valid_identifier(candidate, prefixes)\<close>: the candidate is
  one of the prefixes followed by one or more decimal digits and nothing else.
\<close>

definition is_valid_identifier :: "string \<Rightarrow> string list \<Rightarrow> bool" where
  "is_valid_identifier candidate prefixes =
     (\<exists>p \<in> set prefixes. \<exists>ds. ds \<noteq> [] \<and> list_all is_digit ds \<and> candidate = p @ ds)"

section \<open>Notions used to state the properties\<close>

text \<open>
  What a fallback strategy appends when it starts from no observation: the source's
  block run on the empty list.
\<close>

definition ocr_yield :: "string list \<Rightarrow> ocr_service \<Rightarrow> fault + observation list" where
  "ocr_yield valid_prefixes ocr =
     (case ocr_block valid_prefixes ocr \<lparr>components = [], attempted = [], warnings = []\<rparr> of
        Inl f \<Rightarrow> Inl f
      | Inr st \<Rightarrow> Inr (components st))"

definition plumber_yield :: "string list \<Rightarrow> plumber_service \<Rightarrow> fault + observation list" where
  "plumber_yield valid_prefixes plumber =
     (case plumber_block valid_prefixes plumber \<lparr>components = [], attempted = [], warnings = []\<rparr> of
        Inl f \<Rightarrow> Inl f
      | Inr st \<Rightarrow> Inr (components st))"

text \<open>
  Of a service: the message of the first exception it raises, if it raises, and the
  results of the pages it returned before that.
\<close>

fun first_error :: "(string + 'a) list \<Rightarrow> string option" where
  "first_error [] = None"
| "first_error (Inl e # rs) = Some e"
| "first_error (Inr r # rs) = first_error rs"

fun before_error :: "(string + 'a) list \<Rightarrow> 'a list" where
  "before_error [] = []"
| "before_error (Inl e # rs) = []"
| "before_error (Inr r # rs) = r # before_error rs"

definition service_error :: "string + (string + 'a) list \<Rightarrow> string option" where
  "service_error service = (case service of Inl e \<Rightarrow> Some e | Inr rs \<Rightarrow> first_error rs)"

definition pages_read :: "string + (string + 'a) list \<Rightarrow> 'a list" where
  "pages_read service = (case service of Inl e \<Rightarrow> [] | Inr rs \<Rightarrow> before_error rs)"

text \<open>A single capital letter followed by one or more decimal digits and nothing else.\<close>

definition single_letter_identifier :: "string \<Rightarrow> bool" where
  "single_letter_identifier w =
     (\<exists>c ds. is_upper c \<and> ds \<noteq> [] \<and> list_all is_digit ds \<and> w = c # ds)"

text \<open>A text that ends with a line feed, the one case where \<^verbatim>\<open>$\<close> is not the end.\<close>

definition ends_with_newline :: "string \<Rightarrow> bool" where
  "ends_with_newline s = (s \<noteq> [] \<and> last s = CHR 0x0A)"

text \<open>
  The specification's priority order of the conditions, and the colour it gives an
  identifier: that of the first condition in this order whose set holds the identifier.
\<close>

definition priority :: "condition_key list" where
  "priority = [In_pdf_not_excel, In_excel_not_pdf, Repeated_pdf, Repeated_excel, Normal]"

definition priority_color :: "condition_components \<Rightarrow> string \<Rightarrow> rgb option" where
  "priority_color cc word =
     map_option (\<lambda>key. snd (snd (conditions key)))
       (find (\<lambda>key. word \<in> components_of cc key) priority)"

text \<open>The number of sheets of a report that list an identifier.\<close>

definition sheets_listing ::
  "string \<Rightarrow> (string \<times> (string \<times> string \<times> nat \<times> string) list) list \<Rightarrow> nat" where
  "sheets_listing x sheets = length (filter (\<lambda>sheet. x \<in> sheet_identifiers sheet) sheets)"

text \<open>
  The identifiers of a cell and of a row: the cell's text split on commas, each piece
  trimmed and upper-cased, the empty pieces left out; for the row, those of the selected
  columns together, as a set.
\<close>

definition cell_identifiers :: "cell \<Rightarrow> string set" where
  "cell_identifiers c =
     (case c of Text s \<Rightarrow> if strip s \<noteq> [] then set (split_components s) else {} | _ \<Rightarrow> {})"

definition row_identifiers :: "string list \<Rightarrow> row \<Rightarrow> string set" where
  "row_identifiers component_columns row =
     (\<Union>col \<in> set component_columns. cell_identifiers (row col))"


text \<open>Every selected cell of the row is a text or missing.\<close>

definition text_cells :: "string list \<Rightarrow> row \<Rightarrow> bool" where
  "text_cells component_columns row = list_all (\<lambda>col. row col \<noteq> Other) component_columns"

section \<open>Strategy 1 keeps the valid identifiers\<close>

text \<open>
  The prefix list is never empty (lines 91 to 97), and the default list is literal: the
  two conditions on the prefixes under which the properties below are stated hold for the
  configuration the program starts with.
\<close>

lemma read_prefixes_not_Nil: "read_prefixes prefixes_input \<noteq> []"
  by (simp add: read_prefixes_def Let_def default_prefixes_def)

lemma literal_default_prefixes: "literal_prefixes default_prefixes"
  by (simp add: literal_prefixes_def default_prefixes_def is_alnum_def is_upper_def)

lemma upper_char_alnum: "is_alnum c \<Longrightarrow> is_alnum (upper_char c)"
  unfolding is_alnum_def is_upper_def is_lower_def is_digit_def upper_char_def
  by (elim disjE) auto

lemma normalize_alnum: "list_all is_alnum (normalize raw)"
  by (simp add: normalize_def upper_def list_all_iff upper_char_alnum)

lemma at_dollar_alnum: "list_all is_alnum s \<Longrightarrow> at_dollar body s = body s"
proof -
  assume a: "list_all is_alnum s"
  have lf: "\<not> is_alnum (CHR 0x0A)"
    by (simp add: is_alnum_def is_upper_def is_lower_def is_digit_def)
  have "last s \<noteq> CHR 0x0A" if "s \<noteq> []"
  proof -
    from that have "last s \<in> set s" by simp
    with a have "is_alnum (last s)" by (simp add: list_all_iff)
    with lf show ?thesis by auto
  qed
  then show ?thesis by (auto simp: at_dollar_def)
qed

lemma prefix_digits_iff:
  "startswith p w \<and> digits1 (drop (length p) w) \<longleftrightarrow>
   (\<exists>ds. ds \<noteq> [] \<and> list_all is_digit ds \<and> w = p @ ds)"
proof
  assume h: "startswith p w \<and> digits1 (drop (length p) w)"
  then have "w = p @ drop (length p) w"
    by (metis append_take_drop_id startswith_def)
  with h show "\<exists>ds. ds \<noteq> [] \<and> list_all is_digit ds \<and> w = p @ ds"
    unfolding digits1_def by blast
next
  assume "\<exists>ds. ds \<noteq> [] \<and> list_all is_digit ds \<and> w = p @ ds"
  then show "startswith p w \<and> digits1 (drop (length p) w)"
    by (auto simp: startswith_def digits1_def)
qed

lemma match_prefix_digits_alnum:
  assumes "list_all is_alnum w"
  shows "match_prefix_digits p w \<longleftrightarrow> (\<exists>ds. ds \<noteq> [] \<and> list_all is_digit ds \<and> w = p @ ds)"
proof -
  have "list_all is_alnum (drop (length p) w)"
    using assms by (auto simp: list_all_iff dest: in_set_dropD)
  then have "match_prefix_digits p w \<longleftrightarrow> startswith p w \<and> digits1 (drop (length p) w)"
    by (simp add: match_prefix_digits_def at_dollar_alnum)
  then show ?thesis by (simp only: prefix_digits_iff)
qed

lemma literal_prefixes_spliced:
  "literal_prefixes valid_prefixes \<Longrightarrow> list_all (\<lambda>p. spliced p = Literal) valid_prefixes"
  by (simp add: literal_prefixes_def spliced_def list_all_iff)

lemma any_match_literal:
  "list_all (\<lambda>p. spliced p = Literal) prefixes \<Longrightarrow>
   any_match prefixes word = Inr (list_ex (\<lambda>p. match_prefix_digits p word) prefixes)"
  by (induction prefixes) (simp_all add: re_match_def)

lemma keep_word_literal:
  assumes "literal_prefixes valid_prefixes"
  shows "keep_word valid_prefixes word =
     Inr (list_ex (\<lambda>prefix. startswith prefix word) valid_prefixes \<and>
          (list_ex (\<lambda>prefix. match_prefix_digits prefix word) (single_letter_prefixes valid_prefixes) \<or>
           list_ex (\<lambda>prefix. match_prefix_digits prefix word) (multi_letter_prefixes valid_prefixes)))"
proof -
  have l: "list_all (\<lambda>p. spliced p = Literal) valid_prefixes"
    by (rule literal_prefixes_spliced[OF assms])
  have s: "list_all (\<lambda>p. spliced p = Literal) (single_letter_prefixes valid_prefixes)"
    and m: "list_all (\<lambda>p. spliced p = Literal) (multi_letter_prefixes valid_prefixes)"
    using l by (simp_all add: single_letter_prefixes_def multi_letter_prefixes_def list_all_iff)
  show ?thesis
    by (simp add: keep_word_def any_match_literal[OF s] any_match_literal[OF m])
qed

lemma keep_word_iff:
  assumes lit: "literal_prefixes valid_prefixes" and al: "list_all is_alnum w"
  shows "keep_word valid_prefixes w = Inr (is_valid_identifier w valid_prefixes)"
proof -
  have parts: "set (single_letter_prefixes valid_prefixes) \<union> set (multi_letter_prefixes valid_prefixes)
      = set valid_prefixes"
  proof -
    have "length p = 1 \<or> length p > 1" if "p \<noteq> []" for p :: string
      using that by (cases p) auto
    with lit show ?thesis
      by (auto simp: single_letter_prefixes_def multi_letter_prefixes_def literal_prefixes_def
          list_all_iff)
  qed
  have m: "\<And>p. match_prefix_digits p w \<Longrightarrow> startswith p w"
    by (simp add: match_prefix_digits_def)
  have "(list_ex (\<lambda>prefix. startswith prefix w) valid_prefixes \<and>
          (list_ex (\<lambda>prefix. match_prefix_digits prefix w) (single_letter_prefixes valid_prefixes) \<or>
           list_ex (\<lambda>prefix. match_prefix_digits prefix w) (multi_letter_prefixes valid_prefixes))) \<longleftrightarrow>
        (\<exists>p \<in> set valid_prefixes. startswith p w) \<and>
        (\<exists>p \<in> set (single_letter_prefixes valid_prefixes) \<union> set (multi_letter_prefixes valid_prefixes).
           match_prefix_digits p w)"
    by (auto simp: list_ex_iff)
  also have "\<dots> \<longleftrightarrow> (\<exists>p \<in> set valid_prefixes. match_prefix_digits p w)"
    unfolding parts using m by blast
  also have "\<dots> \<longleftrightarrow> is_valid_identifier w valid_prefixes"
    by (simp add: is_valid_identifier_def match_prefix_digits_alnum[OF al])
  finally show ?thesis
    by (simp only: keep_word_literal[OF lit])
qed

lemma page_words_eq:
  assumes "literal_prefixes valid_prefixes"
  shows "page_words valid_prefixes n page comps =
    Inr (comps @ map (\<lambda>wt. (normalize (token wt), n, Some wt))
      (filter (\<lambda>wt. is_valid_identifier (normalize (token wt)) valid_prefixes) page))"
  by (induction page arbitrary: comps)
    (simp_all add: keep_word_iff[OF assms normalize_alnum])

lemma pages_from_eq:
  assumes "literal_prefixes valid_prefixes"
  shows "pages_from valid_prefixes n doc comps =
    Inr (comps @ concat (map (\<lambda>(page_num, page).
                    map (\<lambda>wt. (normalize (token wt), page_num, Some wt))
                      (filter (\<lambda>wt. is_valid_identifier (normalize (token wt)) valid_prefixes) page))
                 (List.enumerate n doc)))"
  by (induction doc arbitrary: n comps) (simp_all add: page_words_eq[OF assms])

lemma text_layer_eq:
  assumes "literal_prefixes valid_prefixes"
  shows "text_layer valid_prefixes doc =
     Inr (concat (map (\<lambda>(page_num, page).
                    map (\<lambda>wt. (normalize (token wt), page_num, Some wt))
                      (filter (\<lambda>wt. is_valid_identifier (normalize (token wt)) valid_prefixes) page))
                 (List.enumerate 1 doc)))"
  by (simp add: text_layer_def pages_from_eq[OF assms])

text \<open>
  Claim C6. With prefixes of letters and digits, strategy 1 returns, and it keeps a
  positioned token exactly when its normalized form is one configured prefix followed by
  one or more decimal digits and nothing else: the observations are, page by page and
  token by token in their order, the normalized forms of the tokens that are valid
  identifiers, each with its page number (from 1) and its token. So a token whose
  normalized form only starts with a prefix, has something behind the digits, or has no
  digit, is not kept.
\<close>

theorem text_layer_keeps_valid_identifiers:
  assumes "literal_prefixes valid_prefixes"
  shows "text_layer valid_prefixes doc =
     Inr (concat (map (\<lambda>(page_num, page).
                    map (\<lambda>wt. (normalize (token wt), page_num, Some wt))
                      (filter (\<lambda>wt. is_valid_identifier (normalize (token wt)) valid_prefixes) page))
                 (List.enumerate 1 doc)))"
  by (rule text_layer_eq[OF assms])

theorem text_layer_keeps_valid_identifiers_witness:
  "literal_prefixes [''R'', ''SWITCH''] \<and>
   concat (map (\<lambda>(page_num, page).
                  map (\<lambda>wt. (normalize (token wt), page_num, Some wt))
                    (filter (\<lambda>wt. is_valid_identifier (normalize (token wt)) [''R'', ''SWITCH'']) page))
               (List.enumerate 1
                 [[\<lparr>x0 = 0, y0 = 0, x1 = 1, y1 = 1, token = ''r-12''\<rparr>,
                   \<lparr>x0 = 0, y0 = 0, x1 = 1, y1 = 1, token = ''R12A''\<rparr>],
                  [\<lparr>x0 = 0, y0 = 0, x1 = 1, y1 = 1, token = ''Switch3,''\<rparr>,
                   \<lparr>x0 = 0, y0 = 0, x1 = 1, y1 = 1, token = ''R''\<rparr>]]))
   = [(''R12'', 1, Some \<lparr>x0 = 0, y0 = 0, x1 = 1, y1 = 1, token = ''r-12''\<rparr>),
      (''SWITCH3'', 2, Some \<lparr>x0 = 0, y0 = 0, x1 = 1, y1 = 1, token = ''Switch3,''\<rparr>)]"
proof -
  have h: "literal_prefixes [''R'', ''SWITCH'']"
    by (simp add: literal_prefixes_def is_alnum_def is_upper_def is_lower_def is_digit_def)
  have e: "text_layer [''R'', ''SWITCH'']
     [[\<lparr>x0 = 0, y0 = 0, x1 = 1, y1 = 1, token = ''r-12''\<rparr>,
       \<lparr>x0 = 0, y0 = 0, x1 = 1, y1 = 1, token = ''R12A''\<rparr>],
      [\<lparr>x0 = 0, y0 = 0, x1 = 1, y1 = 1, token = ''Switch3,''\<rparr>,
       \<lparr>x0 = 0, y0 = 0, x1 = 1, y1 = 1, token = ''R''\<rparr>]]
   = Inr [(''R12'', 1, Some \<lparr>x0 = 0, y0 = 0, x1 = 1, y1 = 1, token = ''r-12''\<rparr>),
      (''SWITCH3'', 2, Some \<lparr>x0 = 0, y0 = 0, x1 = 1, y1 = 1, token = ''Switch3,''\<rparr>)]"
    by code_simp
  show ?thesis
    using h e text_layer_keeps_valid_identifiers[OF h] by (simp only: simp_thms sum.inject)
qed

section \<open>The fallback chain\<close>

lemma recognize_pages_acc:
  "recognize_pages vp n images acc =
     (case recognize_pages vp n images [] of
        Inl f \<Rightarrow> Inl f
      | Inr (found, err) \<Rightarrow> Inr (acc @ found, first_error images))"
proof (induction images arbitrary: n acc)
  case Nil
  then show ?case by simp
next
  case (Cons r images)
  show ?case
  proof (cases r)
    case (Inl e)
    then show ?thesis by simp
  next
    case (Inr recognized)
    show ?thesis
    proof (cases "text_words vp n (upper recognized)")
      case (Inl f)
      then show ?thesis using Inr by simp
    next
      case found: (Inr found)
      show ?thesis
        using Inr found Cons.IH[of "Suc n" "acc @ found"] Cons.IH[of "Suc n" found]
        by (auto split: sum.splits)
    qed
  qed
qed

lemma plumber_pages_acc:
  "plumber_pages vp n pages acc =
     (case plumber_pages vp n pages [] of
        Inl f \<Rightarrow> Inl f
      | Inr (found, err) \<Rightarrow> Inr (acc @ found, first_error pages))"
proof (induction pages arbitrary: n acc)
  case Nil
  then show ?case by simp
next
  case (Cons r pages)
  show ?case
  proof (cases r)
    case (Inl e)
    then show ?thesis by simp
  next
    case (Inr extracted)
    show ?thesis
    proof (cases "text_words vp n (extracted_text extracted)")
      case (Inl f)
      then show ?thesis using Inr by simp
    next
      case found: (Inr found)
      show ?thesis
        using Inr found Cons.IH[of "Suc n" "acc @ found"] Cons.IH[of "Suc n" found]
        by (auto split: sum.splits)
    qed
  qed
qed

lemma ocr_block_eq:
  "ocr_block vp ocr st =
     (case ocr_yield vp ocr of
        Inl f \<Rightarrow> Inl f
      | Inr y \<Rightarrow>
          Inr (st\<lparr>components := components st @ y,
                  attempted := attempted st @ [Rasterize],
                  warnings := warnings st @ warn ''OCR error: '' (service_error ocr)\<rparr>))"
proof (cases ocr)
  case (Inl e)
  then show ?thesis by (simp add: ocr_block_def ocr_yield_def service_error_def)
next
  case (Inr images)
  show ?thesis
    using recognize_pages_acc[of vp 1 images "components st"]
      recognize_pages_acc[of vp 1 images "[]"]
    by (auto simp: Inr ocr_block_def ocr_yield_def service_error_def split: sum.splits)
qed

lemma plumber_block_eq:
  "plumber_block vp plumber st =
     (case plumber_yield vp plumber of
        Inl f \<Rightarrow> Inl f
      | Inr y \<Rightarrow>
          Inr (st\<lparr>components := components st @ y,
                  attempted := attempted st @ [Alternate],
                  warnings := warnings st @ warn ''pdfplumber error: '' (service_error plumber)\<rparr>))"
proof (cases plumber)
  case (Inl e)
  then show ?thesis by (simp add: plumber_block_def plumber_yield_def service_error_def)
next
  case (Inr pages)
  show ?thesis
    using plumber_pages_acc[of vp 1 pages "components st"]
      plumber_pages_acc[of vp 1 pages "[]"]
    by (auto simp: Inr plumber_block_def plumber_yield_def service_error_def split: sum.splits)
qed

lemma extract_components_eq:
  "extract_components_from_pdf doc vp ocr plumber =
     (case text_layer vp doc of
        Inl f \<Rightarrow> Inl f
      | Inr found1 \<Rightarrow>
          if found1 \<noteq> [] then Inr \<lparr>components = found1, attempted = [Native], warnings = []\<rparr>
          else
            (case ocr_yield vp ocr of
               Inl f \<Rightarrow> Inl f
             | Inr found2 \<Rightarrow>
                 if found2 \<noteq> [] then
                   Inr \<lparr>components = found2, attempted = [Native, Rasterize],
                        warnings = warn ''OCR error: '' (service_error ocr)\<rparr>
                 else
                   (case plumber_yield vp plumber of
                      Inl f \<Rightarrow> Inl f
                    | Inr found3 \<Rightarrow>
                        Inr \<lparr>components = found3, attempted = [Native, Rasterize, Alternate],
                             warnings = warn ''OCR error: '' (service_error ocr) @
                                        warn ''pdfplumber error: '' (service_error plumber)\<rparr>)))"
  by (auto simp: extract_components_from_pdf_def Let_def ocr_block_eq plumber_block_eq
      split: sum.splits)

lemma recognize_pages_literal:
  assumes "list_all (\<lambda>p. spliced p = Literal) (multi_letter_prefixes vp)"
  shows "recognize_pages vp n images acc =
     Inr (acc @ concat (map (\<lambda>(k, txt). page_found vp k (upper txt))
                            (List.enumerate n (before_error images))),
          first_error images)"
proof (induction images arbitrary: n acc)
  case Nil
  then show ?case by simp
next
  case (Cons r images)
  then show ?case using assms by (cases r) (simp_all add: text_words_def)
qed

lemma plumber_pages_literal:
  assumes "list_all (\<lambda>p. spliced p = Literal) (multi_letter_prefixes vp)"
  shows "plumber_pages vp n pages acc =
     Inr (acc @ concat (map (\<lambda>(k, x). page_found vp k (extracted_text x))
                            (List.enumerate n (before_error pages))),
          first_error pages)"
proof (induction pages arbitrary: n acc)
  case Nil
  then show ?case by simp
next
  case (Cons r pages)
  then show ?case using assms by (cases r) (simp_all add: text_words_def)
qed

lemma literal_multi:
  "literal_prefixes vp \<Longrightarrow> list_all (\<lambda>p. spliced p = Literal) (multi_letter_prefixes vp)"
  using literal_prefixes_spliced[of vp] by (simp add: multi_letter_prefixes_def list_all_iff)

lemma ocr_yield_literal:
  assumes "literal_prefixes vp"
  shows "ocr_yield vp ocr =
     Inr (concat (map (\<lambda>(k, txt). page_found vp k (upper txt)) (List.enumerate 1 (pages_read ocr))))"
  by (cases ocr)
    (simp_all add: ocr_yield_def ocr_block_def pages_read_def
      recognize_pages_literal[OF literal_multi[OF assms]])

lemma plumber_yield_literal:
  assumes "literal_prefixes vp"
  shows "plumber_yield vp plumber =
     Inr (concat (map (\<lambda>(k, x). page_found vp k (extracted_text x))
                      (List.enumerate 1 (pages_read plumber))))"
  by (cases plumber)
    (simp_all add: plumber_yield_def plumber_block_def pages_read_def
      plumber_pages_literal[OF literal_multi[OF assms]])

lemma extract_returns:
  assumes "literal_prefixes vp"
  shows "\<exists>ex. extract_components_from_pdf doc vp ocr plumber = Inr ex"
  by (simp add: extract_components_eq text_layer_eq[OF assms]
      ocr_yield_literal[OF assms] plumber_yield_literal[OF assms])

text \<open>
  Claim C7. The extraction is a fallback chain. With prefixes of letters and digits it
  returns; and whenever it returns, strategy 2 has run exactly when strategy 1 found
  nothing, strategy 3 has run exactly when strategy 1 found nothing and strategy 2,
  having run, appended nothing, and the list returned is what the first strategy with a
  non-empty yield appended (the yield of strategy 3, possibly empty, when the first two
  found nothing).
\<close>

theorem extraction_is_fallback_chain:
  "(literal_prefixes valid_prefixes \<longrightarrow>
      (\<exists>ex. extract_components_from_pdf doc valid_prefixes ocr plumber = Inr ex)) \<and>
   (\<forall>ex. extract_components_from_pdf doc valid_prefixes ocr plumber = Inr ex \<longrightarrow>
      (\<exists>found1. text_layer valid_prefixes doc = Inr found1 \<and>
         (if found1 \<noteq> [] then attempted ex = [Native] \<and> components ex = found1
          else
            (\<exists>found2. ocr_yield valid_prefixes ocr = Inr found2 \<and>
               (if found2 \<noteq> [] then attempted ex = [Native, Rasterize] \<and> components ex = found2
                else
                  (\<exists>found3. plumber_yield valid_prefixes plumber = Inr found3 \<and>
                     attempted ex = [Native, Rasterize, Alternate] \<and> components ex = found3))))))"
proof (intro conjI impI allI)
  assume "literal_prefixes valid_prefixes"
  then show "\<exists>ex. extract_components_from_pdf doc valid_prefixes ocr plumber = Inr ex"
    by (rule extract_returns)
next
  fix ex
  assume e: "extract_components_from_pdf doc valid_prefixes ocr plumber = Inr ex"
  show "\<exists>found1. text_layer valid_prefixes doc = Inr found1 \<and>
         (if found1 \<noteq> [] then attempted ex = [Native] \<and> components ex = found1
          else
            (\<exists>found2. ocr_yield valid_prefixes ocr = Inr found2 \<and>
               (if found2 \<noteq> [] then attempted ex = [Native, Rasterize] \<and> components ex = found2
                else
                  (\<exists>found3. plumber_yield valid_prefixes plumber = Inr found3 \<and>
                     attempted ex = [Native, Rasterize, Alternate] \<and> components ex = found3))))"
  proof (cases "text_layer valid_prefixes doc")
    case (Inl f)
    with e show ?thesis by (simp add: extract_components_eq)
  next
    case t: (Inr found1)
    show ?thesis
    proof (cases "found1 = []")
      case False
      with e t show ?thesis by (auto simp: extract_components_eq)
    next
      case n1: True
      show ?thesis
      proof (cases "ocr_yield valid_prefixes ocr")
        case (Inl f)
        with e t n1 show ?thesis by (simp add: extract_components_eq)
      next
        case o: (Inr found2)
        show ?thesis
        proof (cases "found2 = []")
          case False
          with e t n1 o show ?thesis by (auto simp: extract_components_eq)
        next
          case n2: True
          show ?thesis
          proof (cases "plumber_yield valid_prefixes plumber")
            case (Inl f)
            with e t n1 o n2 show ?thesis by (simp add: extract_components_eq)
          next
            case (Inr found3)
            with e t n1 o n2 show ?thesis by (auto simp: extract_components_eq)
          qed
        qed
      qed
    qed
  qed
qed

theorem extraction_is_fallback_chain_witness:
  "literal_prefixes [''U'', ''R''] \<and>
   (\<exists>ex. extract_components_from_pdf [[]] [''U'', ''R'']
            (Inr [Inr ''U7 damaged part u7'', Inr ''R2'']) (Inr [Inr (Some ''R1'')]) = Inr ex \<and>
         attempted ex = [Native, Rasterize] \<and>
         components ex = [(''U7'', 1, None), (''U7'', 1, None), (''R2'', 2, None)])"
proof -
  have h: "literal_prefixes [''U'', ''R'']"
    by (simp add: literal_prefixes_def is_alnum_def is_upper_def)
  have a: "text_layer [''U'', ''R''] [[]] = Inr []"
    by code_simp
  have b: "ocr_yield [''U'', ''R''] (Inr [Inr ''U7 damaged part u7'', Inr ''R2'']) =
      Inr [(''U7'', 1, None), (''U7'', 1, None), (''R2'', 2, None)]"
    by code_simp
  note t = extraction_is_fallback_chain[of "[''U'', ''R'']" "[[]]"
      "Inr [Inr ''U7 damaged part u7'', Inr ''R2'']" "Inr [Inr (Some ''R1'')]"]
  from t h obtain ex where ex: "extract_components_from_pdf [[]] [''U'', ''R'']
      (Inr [Inr ''U7 damaged part u7'', Inr ''R2'']) (Inr [Inr (Some ''R1'')]) = Inr ex"
    by blast
  from t ex have "attempted ex = [Native, Rasterize] \<and>
      components ex = [(''U7'', 1, None), (''U7'', 1, None), (''R2'', 2, None)]"
    unfolding a b by (auto split: if_splits)
  with h ex show ?thesis by blast
qed




section \<open>The post-filter\<close>

lemma upper_char_newline: "upper_char c = CHR 0x0A \<longleftrightarrow> c = CHR 0x0A"
  by (auto simp: upper_char_def split: option.splits if_splits)

lemma ends_with_newline_upper: "ends_with_newline (upper s) = ends_with_newline s"
  by (cases "s = []") (simp_all add: ends_with_newline_def upper_def last_map upper_char_newline)

lemma letter_digits_iff: "letter_digits w = single_letter_identifier w"
  by (cases w) (auto simp: letter_digits_def digits1_def single_letter_identifier_def)

lemma match_component_iff:
  assumes "valid_prefixes \<noteq> []" and "\<not> ends_with_newline w"
  shows "match_component valid_prefixes w \<longleftrightarrow>
     single_letter_identifier w \<or> is_valid_identifier w valid_prefixes"
proof -
  have "match_component valid_prefixes w \<longleftrightarrow>
      letter_digits w \<or> (\<exists>p \<in> set valid_prefixes. startswith p w \<and> digits1 (drop (length p) w))"
    using assms by (auto simp: match_component_def at_dollar_def ends_with_newline_def
        alternation_def list_ex_iff)
  then show ?thesis
    by (simp only: prefix_digits_iff letter_digits_iff is_valid_identifier_def)
qed

lemma filter_components_iff:
  assumes "valid_prefixes \<noteq> []" and "\<not> ends_with_newline ident"
  shows "ident \<in> filter_components valid_prefixes S \<longleftrightarrow>
     ident \<in> S \<and>
     (single_letter_identifier (upper ident) \<or> is_valid_identifier (upper ident) valid_prefixes)"
  using assms
  by (simp add: filter_components_def match_component_iff ends_with_newline_upper)

lemma T1_not_valid: "\<not> is_valid_identifier ''T1'' [''R'']"
  by (simp add: is_valid_identifier_def)

lemma THE1_not_valid: "\<not> is_valid_identifier ''THE1'' [''R'']"
  by (simp add: is_valid_identifier_def)

lemma literal_R: "literal_prefixes [''R'']"
  by (simp add: literal_prefixes_def is_alnum_def is_upper_def)

text \<open>
  Claim C3, as stated, fails: the pattern of line 209 has the alternative
  \<^verbatim>\<open>[A-Z][0-9]+\<close> beside the configured prefixes. With \<open>R\<close> the only prefix, a
  document in which nothing is found and a spreadsheet whose merged column holds
  \<open>T1\<close> in two rows, \<open>T1\<close> stays in the repeated-in-spreadsheet set and in the
  only-in-spreadsheet set, though it is no configured prefix followed by digits.
\<close>

theorem single_letter_passes_filter:
  "excel_list [''T1'', ''T1''] = [''T1'', ''T1''] \<and>
   ''T1'' \<in> repeated_excel (conditions_of [''R''] [] (excel_list [''T1'', ''T1''])) \<and>
   ''T1'' \<in> in_excel_not_pdf (conditions_of [''R''] [] (excel_list [''T1'', ''T1''])) \<and>
   \<not> is_valid_identifier ''T1'' [''R'']"
proof -
  have "excel_list [''T1'', ''T1''] = [''T1'', ''T1'']"
    by code_simp
  moreover have "''T1'' \<in> repeated_excel (conditions_of [''R''] [] (excel_list [''T1'', ''T1'']))"
    by code_simp
  moreover have "''T1'' \<in> in_excel_not_pdf (conditions_of [''R''] [] (excel_list [''T1'', ''T1'']))"
    by code_simp
  ultimately show ?thesis using T1_not_valid by simp
qed

text \<open>
  Claim C3, amended. Each of the four derived sets is filtered before use (lines 211 to
  214): an identifier is in the filtered set exactly when it is in the raw set and its
  upper-cased form is a single capital letter followed by one or more digits, or a
  configured prefix followed by one or more digits. The prefixes are literal and there is
  at least one; the identifier does not end with a line feed (no identifier of a run
  does: those of the spreadsheet are stripped, those of the document are letters and
  digits).
\<close>

theorem derived_sets_are_refiltered:
  assumes "literal_prefixes valid_prefixes" and "valid_prefixes \<noteq> []"
    and "\<not> ends_with_newline ident"
  shows "(ident \<in> repeated_pdf (conditions_of valid_prefixes pdf excel) \<longleftrightarrow>
            ident \<in> repeated pdf \<and>
            (single_letter_identifier (upper ident) \<or> is_valid_identifier (upper ident) valid_prefixes)) \<and>
         (ident \<in> repeated_excel (conditions_of valid_prefixes pdf excel) \<longleftrightarrow>
            ident \<in> repeated excel \<and>
            (single_letter_identifier (upper ident) \<or> is_valid_identifier (upper ident) valid_prefixes)) \<and>
         (ident \<in> in_pdf_not_excel (conditions_of valid_prefixes pdf excel) \<longleftrightarrow>
            ident \<in> set pdf - set excel \<and>
            (single_letter_identifier (upper ident) \<or> is_valid_identifier (upper ident) valid_prefixes)) \<and>
         (ident \<in> in_excel_not_pdf (conditions_of valid_prefixes pdf excel) \<longleftrightarrow>
            ident \<in> set excel - set pdf \<and>
            (single_letter_identifier (upper ident) \<or> is_valid_identifier (upper ident) valid_prefixes))"
  by (simp add: conditions_of_def Let_def filter_components_iff[OF assms(2,3)])

theorem derived_sets_are_refiltered_witness:
  "literal_prefixes [''R''] \<and> [''R''] \<noteq> ([] :: string list) \<and> \<not> ends_with_newline ''T1'' \<and>
   ''T1'' \<in> repeated [''T1'', ''T1''] \<and>
   (single_letter_identifier (upper ''T1'') \<or> is_valid_identifier (upper ''T1'') [''R''])"
proof -
  have h2: "[''R''] \<noteq> ([] :: string list)" by simp
  have h3: "\<not> ends_with_newline ''T1''" by (simp add: ends_with_newline_def)
  have m: "''T1'' \<in> repeated_excel (conditions_of [''R''] [] [''T1'', ''T1''])"
    by code_simp
  show ?thesis
    using derived_sets_are_refiltered[OF literal_R h2 h3, of "[]" "[''T1'', ''T1'']"] m literal_R h2 h3
    by blast
qed

text \<open>
  Claim C2, as stated, fails twice. The filter lets a single letter with digits pass
  whatever the prefixes are (\<open>T1\<close> stays only-in-spreadsheet with \<open>R\<close> the only
  prefix), and the normal set is what is left of all identifiers after the filtered sets
  are taken away (line 293), so an identifier the filter drops (\<open>THE1\<close>) is normal.
\<close>

theorem junk_identifier_is_normal:
  "''THE1'' \<in> normal (conditions_of [''R''] [] [''THE1'', ''T1'']) \<and>
   ''T1'' \<in> in_excel_not_pdf (conditions_of [''R''] [] [''THE1'', ''T1'']) \<and>
   \<not> is_valid_identifier ''THE1'' [''R''] \<and>
   \<not> is_valid_identifier ''T1'' [''R'']"
proof -
  have "''THE1'' \<in> normal (conditions_of [''R''] [] [''THE1'', ''T1''])"
    by code_simp
  moreover have "''T1'' \<in> in_excel_not_pdf (conditions_of [''R''] [] [''THE1'', ''T1''])"
    by code_simp
  ultimately show ?thesis using T1_not_valid THE1_not_valid by simp
qed

text \<open>
  Claim C2, amended. An identifier whose upper-cased form is neither a single capital
  letter followed by digits nor a configured prefix followed by digits is in none of the
  four derived sets after the post-filter (prefixes and identifier as for claim C3).
  Nothing is said of the normal set.
\<close>

theorem unshaped_identifier_in_no_derived_set:
  assumes "literal_prefixes valid_prefixes" and "valid_prefixes \<noteq> []"
    and "\<not> ends_with_newline ident"
    and "\<not> single_letter_identifier (upper ident)"
    and "\<not> is_valid_identifier (upper ident) valid_prefixes"
  shows "ident \<notin> repeated_pdf (conditions_of valid_prefixes pdf excel) \<and>
         ident \<notin> repeated_excel (conditions_of valid_prefixes pdf excel) \<and>
         ident \<notin> in_pdf_not_excel (conditions_of valid_prefixes pdf excel) \<and>
         ident \<notin> in_excel_not_pdf (conditions_of valid_prefixes pdf excel)"
  using assms(4,5)
  by (simp add: conditions_of_def Let_def filter_components_iff[OF assms(2,3)])

theorem unshaped_identifier_in_no_derived_set_witness:
  "literal_prefixes [''R''] \<and> [''R''] \<noteq> ([] :: string list) \<and> \<not> ends_with_newline ''THE1'' \<and>
   \<not> single_letter_identifier (upper ''THE1'') \<and>
   \<not> is_valid_identifier (upper ''THE1'') [''R''] \<and>
   ''THE1'' \<notin> repeated_pdf (conditions_of [''R''] [''THE1'', ''THE1''] [''THE1'', ''THE1'']) \<and>
   ''THE1'' \<notin> repeated_excel (conditions_of [''R''] [''THE1'', ''THE1''] [''THE1'', ''THE1'']) \<and>
   ''THE1'' \<notin> in_pdf_not_excel (conditions_of [''R''] [] [''THE1'']) \<and>
   ''THE1'' \<notin> in_excel_not_pdf (conditions_of [''R''] [] [''THE1''])"
proof -
  have h2: "[''R''] \<noteq> ([] :: string list)" by simp
  have h3: "\<not> ends_with_newline ''THE1''" by (simp add: ends_with_newline_def)
  have u: "upper ''THE1'' = ''THE1''" by (simp add: upper_def upper_char_def)
  have h4: "\<not> single_letter_identifier (upper ''THE1'')"
    unfolding u by (simp add: single_letter_identifier_def is_digit_def)
  have h5: "\<not> is_valid_identifier (upper ''THE1'') [''R'']"
    unfolding u by (rule THE1_not_valid)
  show ?thesis
    using unshaped_identifier_in_no_derived_set[OF literal_R h2 h3 h4 h5,
        of "[''THE1'', ''THE1'']" "[''THE1'', ''THE1'']"]
      unshaped_identifier_in_no_derived_set[OF literal_R h2 h3 h4 h5, of "[]" "[''THE1'']"]
      literal_R h2 h3 h4 h5
    by blast
qed

section \<open>The report and the markers\<close>

lemma finite_filter_components: "finite S \<Longrightarrow> finite (filter_components vp S)"
  by (simp add: filter_components_def)

lemma finite_repeated: "finite (repeated ws)"
  by (simp add: repeated_def)

lemma finite_components_of: "finite (components_of (conditions_of vp pdf excel) key)"
  by (cases key) (simp_all add: conditions_of_def Let_def finite_filter_components finite_repeated)

lemma sheet_identifiers_report_sheet:
  "sheet_identifiers (report_sheet vp pdf excel key) = components_of (conditions_of vp pdf excel) key"
  by (simp add: sheet_identifiers_def report_sheet_def sheet_rows_def comp_def finite_components_of)

lemma sheets_listing_report:
  "sheets_listing x (report vp pdf excel) =
     length (filter (\<lambda>key. x \<in> components_of (conditions_of vp pdf excel) key) condition_keys)"
  by (simp add: sheets_listing_def report_def filter_map comp_def sheet_identifiers_report_sheet)

lemma filter_componentsD: "x \<in> filter_components vp S \<Longrightarrow> x \<in> S"
  by (simp add: filter_components_def)

lemma repeatedD: "x \<in> repeated ws \<Longrightarrow> x \<in> set ws"
  by (simp add: repeated_def)

lemma condition_sets_facts:
  fixes vp pdf excel
  defines "cc \<equiv> conditions_of vp pdf excel"
  shows "repeated_pdf cc \<subseteq> set pdf"
    and "repeated_excel cc \<subseteq> set excel"
    and "in_pdf_not_excel cc \<subseteq> set pdf - set excel"
    and "in_excel_not_pdf cc \<subseteq> set excel - set pdf"
    and "normal cc = (set pdf \<union> set excel) -
          (repeated_pdf cc \<union> repeated_excel cc \<union> in_pdf_not_excel cc \<union> in_excel_not_pdf cc)"
  by (auto simp: cc_def conditions_of_def Let_def dest: filter_componentsD repeatedD)

text \<open>
  Claim C1, as stated, fails: the sheets are written from the five sets as they are
  (lines 296 to 319), with no priority among them, and the sets overlap. An identifier
  seen twice in the document and absent from the spreadsheet is listed on the
  repeated-in-document sheet and on the only-in-document sheet.
\<close>

theorem repeated_and_missing_is_listed_twice:
  "sheets_listing ''R1'' (report [''R''] [''R1'', ''R1''] []) = 2 \<and>
   ''R1'' \<in> sheet_identifiers (report_sheet [''R''] [''R1'', ''R1''] [] Repeated_pdf) \<and>
   ''R1'' \<in> sheet_identifiers (report_sheet [''R''] [''R1'', ''R1''] [] In_pdf_not_excel)"
  by code_simp

text \<open>
  Claim C1, amended. Every identifier in a row of the report is listed on one or on two
  of the five sheets; one listed on the normal sheet is on no other sheet; and no
  identifier is on both the only-in-document and the only-in-spreadsheet sheet.
\<close>

theorem report_lists_identifier_once_or_twice:
  assumes "x \<in> \<Union> (sheet_identifiers ` set (report valid_prefixes pdf excel))"
  shows "sheets_listing x (report valid_prefixes pdf excel) \<in> {1, 2} \<and>
         (x \<in> sheet_identifiers (report_sheet valid_prefixes pdf excel Normal) \<longrightarrow>
            sheets_listing x (report valid_prefixes pdf excel) = 1) \<and>
         \<not> (x \<in> sheet_identifiers (report_sheet valid_prefixes pdf excel In_pdf_not_excel) \<and>
            x \<in> sheet_identifiers (report_sheet valid_prefixes pdf excel In_excel_not_pdf))"
proof -
  let ?cc = "conditions_of valid_prefixes pdf excel"
  note f = condition_sets_facts[of valid_prefixes pdf excel]
  from assms obtain key where k: "x \<in> components_of ?cc key"
    by (auto simp: report_def sheet_identifiers_report_sheet)
  have some: "x \<in> repeated_pdf ?cc \<or> x \<in> repeated_excel ?cc \<or> x \<in> in_pdf_not_excel ?cc \<or>
      x \<in> in_excel_not_pdf ?cc \<or> x \<in> normal ?cc"
    using k by (cases key) simp_all
  show ?thesis
    unfolding sheets_listing_report sheet_identifiers_report_sheet condition_keys_def
    using some f by (auto split: if_splits)
qed

theorem report_lists_identifier_once_or_twice_witness:
  "''D5'' \<in> \<Union> (sheet_identifiers ` set (report [''R''] [''R1'', ''R1'', ''C3''] [''R1'', ''D5''])) \<and>
   sheets_listing ''D5'' (report [''R''] [''R1'', ''R1'', ''C3''] [''R1'', ''D5'']) \<in> {1, 2} \<and>
   \<not> (''D5'' \<in> sheet_identifiers (report_sheet [''R''] [''R1'', ''R1'', ''C3''] [''R1'', ''D5''] In_pdf_not_excel) \<and>
      ''D5'' \<in> sheet_identifiers (report_sheet [''R''] [''R1'', ''R1'', ''C3''] [''R1'', ''D5''] In_excel_not_pdf))"
proof -
  have h: "''D5'' \<in> \<Union> (sheet_identifiers ` set (report [''R''] [''R1'', ''R1'', ''C3''] [''R1'', ''D5'']))"
    by code_simp
  show ?thesis
    using report_lists_identifier_once_or_twice[OF h] h by blast
qed

lemma find_priority:
  "find P priority =
     (if P In_pdf_not_excel then Some In_pdf_not_excel
      else if P In_excel_not_pdf then Some In_excel_not_pdf
      else if P Repeated_pdf then Some Repeated_pdf
      else if P Repeated_excel then Some Repeated_excel
      else if P Normal then Some Normal else None)"
  by (simp add: priority_def)

lemma marker_color_priority:
  assumes "word \<in> set pdf"
  shows "Some (marker_color (conditions_of vp pdf excel) word) =
         priority_color (conditions_of vp pdf excel) word"
proof -
  note f = condition_sets_facts[of vp pdf excel]
  have "word \<in> normal (conditions_of vp pdf excel)"
    if "word \<notin> in_pdf_not_excel (conditions_of vp pdf excel)"
      "word \<notin> in_excel_not_pdf (conditions_of vp pdf excel)"
      "word \<notin> repeated_pdf (conditions_of vp pdf excel)"
      "word \<notin> repeated_excel (conditions_of vp pdf excel)"
    using that assms f(5) by simp
  then show ?thesis
    by (auto simp: marker_color_def priority_color_def find_priority)
qed

lemma highlight_strokes:
  assumes "\<And>word. word \<in> fst ` set obs \<Longrightarrow> Some (marker_color cc word) = priority_color cc word"
  shows "map (\<lambda>m. Some (stroke m)) (highlight_components obs cc) =
         map (\<lambda>(word, page_num, word_tuple). priority_color cc word)
             (filter (\<lambda>(word, page_num, word_tuple). word_tuple \<noteq> None) obs)"
  using assms
proof (induction obs)
  case Nil
  then show ?case by (simp add: highlight_components_def)
next
  case (Cons ob obs)
  obtain word page_num word_tuple where ob: "ob = (word, page_num, word_tuple)"
    by (cases ob) auto
  have ih: "map (\<lambda>m. Some (stroke m)) (highlight_components obs cc) =
         map (\<lambda>(word, page_num, word_tuple). priority_color cc word)
             (filter (\<lambda>(word, page_num, word_tuple). word_tuple \<noteq> None) obs)"
    using Cons by simp
  have c: "Some (marker_color cc word) = priority_color cc word"
    using Cons.prems[of word] ob by simp
  have "highlight_components (ob # obs) cc =
      (case word_tuple of None \<Rightarrow> []
       | Some wt \<Rightarrow> [\<lparr>on_page = page_num, rect = (x0 wt - 2, y0 wt - 2, x1 wt + 2, y1 wt + 2),
                        stroke = marker_color cc word\<rparr>]) @ highlight_components obs cc"
    by (simp add: highlight_components_def ob)
  then show ?case
    using ih c by (cases word_tuple) (simp_all add: ob)
qed

text \<open>
  Claim C5. The markers drawn are, in the order of the observations, one for each
  observation that has a bounding region, and the colour of each is the colour the table
  of conditions gives the first set, in the order only-in-document, only-in-spreadsheet,
  repeated-in-document, repeated-in-spreadsheet, normal, that holds the observation's
  identifier; there is always such a set.
\<close>

theorem marker_color_follows_priority:
  "map (\<lambda>m. Some (stroke m))
       (highlight_components pdf_components_list
          (conditions_of valid_prefixes (pdf_list pdf_components_list) excel)) =
   map (\<lambda>(word, page_num, word_tuple).
          priority_color (conditions_of valid_prefixes (pdf_list pdf_components_list) excel) word)
       (filter (\<lambda>(word, page_num, word_tuple). word_tuple \<noteq> None) pdf_components_list)"
  by (rule highlight_strokes) (simp add: marker_color_priority pdf_list_def)

theorem marker_color_follows_priority_witness:
  "map (\<lambda>(word, page_num, word_tuple).
          priority_color
            (conditions_of [''R'', ''C'']
               (pdf_list [(''R1'', 1, Some \<lparr>x0 = 0, y0 = 0, x1 = 1, y1 = 1, token = ''R1''\<rparr>),
                          (''R1'', 2, None),
                          (''C3'', 1, Some \<lparr>x0 = 5, y0 = 5, x1 = 6, y1 = 6, token = ''c3''\<rparr>),
                          (''R7'', 1, Some \<lparr>x0 = 5, y0 = 7, x1 = 6, y1 = 8, token = ''R7''\<rparr>)])
               [''R1'', ''R7'']) word)
       (filter (\<lambda>(word, page_num, word_tuple). word_tuple \<noteq> None)
         ([(''R1'', 1, Some \<lparr>x0 = 0, y0 = 0, x1 = 1, y1 = 1, token = ''R1''\<rparr>),
           (''R1'', 2, None),
           (''C3'', 1, Some \<lparr>x0 = 5, y0 = 5, x1 = 6, y1 = 6, token = ''c3''\<rparr>),
           (''R7'', 1, Some \<lparr>x0 = 5, y0 = 7, x1 = 6, y1 = 8, token = ''R7''\<rparr>)]
          :: observation list)) =
   [Some (1, 0, 0), Some (1, 1, 0), Some (0, 1, 0)]"
proof -
  have e: "map (\<lambda>m. Some (stroke m))
       (highlight_components
          [(''R1'', 1, Some \<lparr>x0 = 0, y0 = 0, x1 = 1, y1 = 1, token = ''R1''\<rparr>),
           (''R1'', 2, None),
           (''C3'', 1, Some \<lparr>x0 = 5, y0 = 5, x1 = 6, y1 = 6, token = ''c3''\<rparr>),
           (''R7'', 1, Some \<lparr>x0 = 5, y0 = 7, x1 = 6, y1 = 8, token = ''R7''\<rparr>)]
          (conditions_of [''R'', ''C'']
             (pdf_list [(''R1'', 1, Some \<lparr>x0 = 0, y0 = 0, x1 = 1, y1 = 1, token = ''R1''\<rparr>),
                        (''R1'', 2, None),
                        (''C3'', 1, Some \<lparr>x0 = 5, y0 = 5, x1 = 6, y1 = 6, token = ''c3''\<rparr>),
                        (''R7'', 1, Some \<lparr>x0 = 5, y0 = 7, x1 = 6, y1 = 8, token = ''R7''\<rparr>)])
             [''R1'', ''R7''])) =
     [Some (1, 0, 0), Some (1, 1, 0), Some (0, 1, 0)]"
    by code_simp
  show ?thesis
    unfolding marker_color_follows_priority[symmetric] by (rule e)
qed

section \<open>The expansion of the spreadsheet\<close>

lemma finite_row_identifiers: "finite (row_identifiers cols row)"
  by (auto simp: row_identifiers_def cell_identifiers_def split: cell.splits)

lemma row_components_eq:
  "text_cells cols row \<Longrightarrow>
   row_components row cols acc = Inr (acc \<union> row_identifiers cols row)"
proof (induction cols arbitrary: acc)
  case Nil
  then show ?case by (simp add: row_identifiers_def)
next
  case (Cons col cols)
  then have t: "text_cells cols row" and c: "row col \<noteq> Other"
    by (simp_all add: text_cells_def)
  have r: "row_identifiers (col # cols) row = cell_identifiers (row col) \<union> row_identifiers cols row"
    by (simp add: row_identifiers_def)
  show ?case
    using c by (cases "row col") (auto simp: Cons.IH[OF t] r cell_identifiers_def)
qed

lemma expand_row_eq:
  assumes "text_cells cols row"
  shows "expand_row cols row =
     Inr (if row_identifiers cols row \<noteq> {} then
            map (\<lambda>component. row(''Merged Components'' := Text component))
              (sorted_list_of_set (row_identifiers cols row))
          else [row(''Merged Components'' := Text [])])"
  by (simp add: expand_row_def row_components_eq[OF assms])

lemma expand_rows_eq:
  assumes "list_all (text_cells cols) rows"
  shows "expand_rows cols rows =
     Inr (concat (map (\<lambda>row. if row_identifiers cols row \<noteq> {} then
                                map (\<lambda>component. row(''Merged Components'' := Text component))
                                  (sorted_list_of_set (row_identifiers cols row))
                              else [row(''Merged Components'' := Text [])]) rows))"
  using assms by (induction rows) (simp_all add: expand_row_eq)

text \<open>
  Claim C10, as stated, fails on two inputs the table can hold. A selected cell that is
  a number makes \<^verbatim>\<open>.strip()\<close> raise, and the expansion gives no row at all; and in a
  table that already has a column named \<^verbatim>\<open>Merged Components\<close> the value of that
  column is overwritten in every output row.
\<close>

theorem expansion_overwrites_or_raises:
  "expand_rows [''Parts''] [(\<lambda>col. NaN)(''Parts'' := Other)] = Inl AttributeError \<and>
   (\<exists>r. expand_rows [] [(\<lambda>col. NaN)(''Merged Components'' := Text ''old'')] = Inr [r] \<and>
        r ''Merged Components'' = Text [] \<and>
        ((\<lambda>col. NaN)(''Merged Components'' := Text ''old'')) ''Merged Components'' = Text ''old'')"
  by (simp add: expand_row_def)

text \<open>
  Claim C10, amended. When every selected cell is a text or missing, the expansion drops
  no row: the output is, input row by input row, the rows that input row expands to; a
  row with no identifier gives one row whose \<^verbatim>\<open>Merged Components\<close> is the empty text,
  a row with \<open>n\<close> distinct identifiers gives \<open>n\<close> rows that list the identifiers in
  ascending order, each once; and every output row has the input row's value in every
  column other than \<^verbatim>\<open>Merged Components\<close>.
\<close>

theorem expansion_keeps_every_row:
  assumes "list_all (text_cells cols) rows"
  shows "\<exists>outs. expand_rows cols rows = Inr (concat outs) \<and> length outs = length rows \<and>
     (\<forall>i < length rows.
        expand_row cols (rows ! i) = Inr (outs ! i) \<and>
        length (outs ! i) =
          (if row_identifiers cols (rows ! i) = {} then 1 else card (row_identifiers cols (rows ! i))) \<and>
        (\<exists>ids. sorted ids \<and> distinct ids \<and> set ids = row_identifiers cols (rows ! i) \<and>
           map (\<lambda>r. r ''Merged Components'') (outs ! i) =
             (if ids = [] then [Text []] else map Text ids)) \<and>
        (\<forall>r \<in> set (outs ! i). \<forall>col. col \<noteq> ''Merged Components'' \<longrightarrow> r col = (rows ! i) col))"
proof -
  let ?f = "\<lambda>row. if row_identifiers cols row \<noteq> {} then
                     map (\<lambda>component. row(''Merged Components'' := Text component))
                       (sorted_list_of_set (row_identifiers cols row))
                   else [row(''Merged Components'' := Text [])]"
  have per_row: "expand_row cols (rows ! i) = Inr (?f (rows ! i)) \<and>
        length (?f (rows ! i)) =
          (if row_identifiers cols (rows ! i) = {} then 1 else card (row_identifiers cols (rows ! i))) \<and>
        (\<exists>ids. sorted ids \<and> distinct ids \<and> set ids = row_identifiers cols (rows ! i) \<and>
           map (\<lambda>r. r ''Merged Components'') (?f (rows ! i)) =
             (if ids = [] then [Text []] else map Text ids)) \<and>
        (\<forall>r \<in> set (?f (rows ! i)). \<forall>col. col \<noteq> ''Merged Components'' \<longrightarrow> r col = (rows ! i) col)"
    if i: "i < length rows" for i
  proof -
    let ?row = "rows ! i"
    let ?ids = "row_identifiers cols ?row"
    have t: "text_cells cols ?row"
      using assms i by (simp add: list_all_length)
    have fin: "finite ?ids" by (rule finite_row_identifiers)
    have a: "expand_row cols ?row = Inr (?f ?row)"
      by (rule expand_row_eq[OF t])
    have b: "length (?f ?row) = (if ?ids = {} then 1 else card ?ids)"
      by simp
    have c: "sorted (sorted_list_of_set ?ids) \<and> distinct (sorted_list_of_set ?ids) \<and>
        set (sorted_list_of_set ?ids) = ?ids \<and>
        map (\<lambda>r. r ''Merged Components'') (?f ?row) =
          (if sorted_list_of_set ?ids = [] then [Text []] else map Text (sorted_list_of_set ?ids))"
      using fin by (simp add: comp_def)
    have d: "\<forall>r \<in> set (?f ?row). \<forall>col. col \<noteq> ''Merged Components'' \<longrightarrow> r col = ?row col"
      by auto
    from a b c d show ?thesis by blast
  qed
  have "expand_rows cols rows = Inr (concat (map ?f rows))"
    by (rule expand_rows_eq[OF assms])
  moreover have "length (map ?f rows) = length rows" by simp
  moreover have "\<forall>i < length rows.
        expand_row cols (rows ! i) = Inr (map ?f rows ! i) \<and>
        length (map ?f rows ! i) =
          (if row_identifiers cols (rows ! i) = {} then 1 else card (row_identifiers cols (rows ! i))) \<and>
        (\<exists>ids. sorted ids \<and> distinct ids \<and> set ids = row_identifiers cols (rows ! i) \<and>
           map (\<lambda>r. r ''Merged Components'') (map ?f rows ! i) =
             (if ids = [] then [Text []] else map Text ids)) \<and>
        (\<forall>r \<in> set (map ?f rows ! i). \<forall>col. col \<noteq> ''Merged Components'' \<longrightarrow> r col = (rows ! i) col)"
  proof (intro allI impI)
    fix i assume i: "i < length rows"
    have n: "map ?f rows ! i = ?f (rows ! i)" using i by simp
    show "expand_row cols (rows ! i) = Inr (map ?f rows ! i) \<and>
        length (map ?f rows ! i) =
          (if row_identifiers cols (rows ! i) = {} then 1 else card (row_identifiers cols (rows ! i))) \<and>
        (\<exists>ids. sorted ids \<and> distinct ids \<and> set ids = row_identifiers cols (rows ! i) \<and>
           map (\<lambda>r. r ''Merged Components'') (map ?f rows ! i) =
             (if ids = [] then [Text []] else map Text ids)) \<and>
        (\<forall>r \<in> set (map ?f rows ! i). \<forall>col. col \<noteq> ''Merged Components'' \<longrightarrow> r col = (rows ! i) col)"
      unfolding n by (rule per_row[OF i])
  qed
  ultimately show ?thesis by blast
qed

lemma example_row_identifiers:
  "row_identifiers [''Parts''] ((\<lambda>col. NaN)(''Parts'' := Text ''r1, R2,r1'')) = {''R1'', ''R2''}"
  "row_identifiers [''Parts''] ((\<lambda>col. NaN)(''Parts'' := Text ''R1'')) = {''R1''}"
  "row_identifiers [''Parts''] (\<lambda>col. NaN) = {}"
  by code_simp+

lemma example_text_cells:
  "text_cells [''Parts''] ((\<lambda>col. NaN)(''Parts'' := Text ''r1, R2,r1''))"
  "text_cells [''Parts''] ((\<lambda>col. NaN)(''Parts'' := Text ''R1''))"
  "text_cells [''Parts''] (\<lambda>col. NaN)"
  by (simp_all add: text_cells_def)

theorem expansion_keeps_every_row_witness:
  "list_all (text_cells [''Parts''])
     [(\<lambda>col. NaN)(''Parts'' := Text ''r1, R2,r1''), (\<lambda>col. NaN)] \<and>
   (\<exists>outs. expand_rows [''Parts'']
              [(\<lambda>col. NaN)(''Parts'' := Text ''r1, R2,r1''), (\<lambda>col. NaN)] = Inr (concat outs) \<and>
           length outs = 2 \<and> length (outs ! 0) = 2 \<and> length (outs ! 1) = 1 \<and>
           map (\<lambda>r. r ''Merged Components'') (outs ! 1) = [Text []])"
proof -
  have h: "list_all (text_cells [''Parts''])
     [(\<lambda>col. NaN)(''Parts'' := Text ''r1, R2,r1''), (\<lambda>col. NaN)]"
    by (simp add: example_text_cells)
  from expansion_keeps_every_row[OF h]
  obtain outs where o: "expand_rows [''Parts'']
        [(\<lambda>col. NaN)(''Parts'' := Text ''r1, R2,r1''), (\<lambda>col. NaN)] = Inr (concat outs)"
      "length outs = 2"
    and a: "\<forall>i < 2.
        length (outs ! i) =
          (if row_identifiers [''Parts''] ([(\<lambda>col. NaN)(''Parts'' := Text ''r1, R2,r1''), (\<lambda>col. NaN)] ! i) = {}
           then 1
           else card (row_identifiers [''Parts'']
                  ([(\<lambda>col. NaN)(''Parts'' := Text ''r1, R2,r1''), (\<lambda>col. NaN)] ! i))) \<and>
        (\<exists>ids. sorted ids \<and> distinct ids \<and>
           set ids = row_identifiers [''Parts'']
               ([(\<lambda>col. NaN)(''Parts'' := Text ''r1, R2,r1''), (\<lambda>col. NaN)] ! i) \<and>
           map (\<lambda>r. r ''Merged Components'') (outs ! i) =
             (if ids = [] then [Text []] else map Text ids))"
    by auto
  have l0: "length (outs ! 0) = 2"
    using a[rule_format, of 0] by (simp add: example_row_identifiers)
  have l1: "length (outs ! 1) = 1" "map (\<lambda>r. r ''Merged Components'') (outs ! 1) = [Text []]"
    using a[rule_format, of 1] by (auto simp: example_row_identifiers)
  have "\<exists>outs. expand_rows [''Parts'']
              [(\<lambda>col. NaN)(''Parts'' := Text ''r1, R2,r1''), (\<lambda>col. NaN)] = Inr (concat outs) \<and>
           length outs = 2 \<and> length (outs ! 0) = 2 \<and> length (outs ! 1) = 1 \<and>
           map (\<lambda>r. r ''Merged Components'') (outs ! 1) = [Text []]"
    by (rule exI[of _ outs]) (simp only: o l0 l1 simp_thms)
  with h show ?thesis by (rule conjI)
qed

section \<open>The identifiers of the spreadsheet\<close>


























section \<open>The files of a run\<close>








end
